theory Spec2Isabelle
  imports Complex_Main "HOL-Library.Char_ord" "HOL-Library.List_Lexorder" "HOL-Library.Multiset"
    "HOL-Library.Word"
begin

section \<open>The genre analysis operator of \<^verbatim>\<open>dags/operators/genere_operator.py\<close>\<close>

text \<open>
  The operator reads three delimited files with \<^verbatim>\<open>pd.read_csv\<close>, joins them with
  two \<^verbatim>\<open>merge\<close> calls, labels every joined row with \<^verbatim>\<open>pd.cut\<close>, sums the
  genre columns per group with \<^verbatim>\<open>groupby(..., observed=False)[genre_columns].sum()\<close>,
  keeps \<^verbatim>\<open>nlargest(5)\<close> of every group and inserts one record per group through a
  psycopg2 cursor. A data frame is a list of rows; a missing value (NaN) is \<open>None\<close>;
  an exception is the \<open>Inl\<close> of a sum. Numbers are 64-bit integers, as the int64 columns
  of pandas hold them: keys, ages and genre flags of the data set are integers, and
  \<open>pd_cut\<close> below is stated for every ordered ring.
\<close>

datatype error = DataSourceError | TypeError | PersistenceError

subsection \<open>Loading: \<^verbatim>\<open>pd.read_csv(path, sep=..., names=..., header=None)\<close>\<close>

text \<open>
  A field of a line is given as the value the parser holds for it: an int64 number
  (\<open>Num\<close>), a string (\<open>Txt\<close>), or NaN for an empty field (\<open>None\<close>). A source is
  the list of the fields of its lines, or \<open>None\<close> when the file cannot be read. The
  parser types a column as a whole, so a field that looks like a number is a string in
  a column that also holds text, and \<open>True\<close> and \<open>False\<close> in a Boolean column are
  the numbers 1 and 0 in every sum. Not covered: numbers that are not integers, and the
  rounding to float64 that a number beyond \<open>2 ^ 53\<close> undergoes in a column with an
  empty field.
\<close>

datatype cell = Num "64 word" | Txt string

type_synonym field = "cell option"

type_synonym source = "field list list option"

text \<open>Missing trailing delimiters: the tokenizer closes a short line with empty fields.\<close>

definition pad :: "nat \<Rightarrow> field list \<Rightarrow> field list" where
  "pad w fs = fs @ replicate (w - length fs) None"

text \<open>
  \<open>read_csv n src\<close> with \<open>n\<close> names passed and no header line. Blank lines are skipped.
  The expected number of fields is the larger of \<open>n\<close> and the width of the first line; a
  later line with more fields is a parser error, a line with fewer is padded; when the
  first line is wider than \<open>n\<close> the leading columns become the index and the names label
  the last \<open>n\<close> columns. Every exception of the call is \<open>DataSourceError\<close>.
\<close>

definition read_csv :: "nat \<Rightarrow> source \<Rightarrow> error + field list list" where
  "read_csv n src =
     (case src of
        None \<Rightarrow> Inl DataSourceError
      | Some lines \<Rightarrow>
          (case filter (\<lambda>l. l \<noteq> []) lines of
             [] \<Rightarrow> Inr []
           | l # ls \<Rightarrow>
               (let w = max (length l) n in
                if list_ex (\<lambda>l'. w < length l') ls then Inl DataSourceError
                else Inr (map (\<lambda>l'. drop (w - n) (pad w l')) (l # ls)))))"

definition ratings_names :: "string list" where
  "ratings_names = [''user_id'', ''item_id'', ''rating'', ''timestamp'']"

definition genre_columns :: "string list" where
  "genre_columns =
     [''unknown'', ''Action'', ''Adventure'', ''Animation'', ''Children's'', ''Comedy'',
      ''Crime'', ''Documentary'', ''Drama'', ''Fantasy'', ''Film-Noir'', ''Horror'',
      ''Musical'', ''Mystery'', ''Romance'', ''Sci-Fi'', ''Thriller'', ''War'', ''Western'']"

definition movies_names :: "string list" where
  "movies_names =
     [''movie_id'', ''movie_title'', ''release_date'', ''video_release_date'', ''IMDb_URL'']
     @ genre_columns"

definition users_names :: "string list" where
  "users_names = [''user_id'', ''age'', ''gender'', ''occupation'', ''zip_code'']"

subsection \<open>The three tables, with the columns the merge projects\<close>

text \<open>
  A key or age column holds the signed value of a number, or NaN. The tables of the model
  are those whose key columns are numeric and whose occupation column is text: a string
  in a key column and a number in the occupation column have no value here and are read
  as NaN. A string in the age column makes \<^verbatim>\<open>pd.cut\<close> raise, which \<open>execute\<close>
  below tests on the loaded lines. A genre flag is \<open>None\<close> when the field is empty or
  a string, which is what \<^verbatim>\<open>pd.to_numeric(errors='coerce')\<close> makes of it.
\<close>

fun num_of :: "field \<Rightarrow> int option" where
  "num_of (Some (Num w)) = Some (sint w)"
| "num_of _ = None"

fun flag_of :: "field \<Rightarrow> 64 word option" where
  "flag_of (Some (Num w)) = Some w"
| "flag_of _ = None"

fun is_txt :: "field \<Rightarrow> bool" where
  "is_txt (Some (Txt s)) = True"
| "is_txt _ = False"

fun txt_of :: "field \<Rightarrow> string option" where
  "txt_of (Some (Txt s)) = Some s"
| "txt_of _ = None"

definition fld :: "'a option list \<Rightarrow> nat \<Rightarrow> 'a option" where
  "fld fs i = (if i < length fs then fs ! i else None)"

record rating_row =
  r_user_id :: "int option"
  r_item_id :: "int option"
  r_rating :: "int option"
  r_timestamp :: "int option"

record movie_row =
  movie_id :: "int option"
  genres :: "64 word option list"

record user_row =
  u_user_id :: "int option"
  u_age :: "int option"
  u_occupation :: "string option"

definition rating_of :: "field list \<Rightarrow> rating_row" where
  "rating_of fs =
     \<lparr>r_user_id = num_of (fld fs 0), r_item_id = num_of (fld fs 1),
      r_rating = num_of (fld fs 2), r_timestamp = num_of (fld fs 3)\<rparr>"

definition movie_of :: "field list \<Rightarrow> movie_row" where
  "movie_of fs = \<lparr>movie_id = num_of (fld fs 0), genres = map flag_of (drop 5 fs)\<rparr>"

definition user_of :: "field list \<Rightarrow> user_row" where
  "user_of fs =
     \<lparr>u_user_id = num_of (fld fs 0), u_age = num_of (fld fs 1), u_occupation = txt_of (fld fs 3)\<rparr>"

subsection \<open>Joining: two inner merges\<close>

text \<open>
  \<^verbatim>\<open>left.merge(right, left_on=k, right_on=k')\<close> is an inner join that keeps the order of
  the left rows and pairs each with every right row of the same key; two NaN keys match.
\<close>

definition merge :: "('a \<Rightarrow> 'k) \<Rightarrow> ('b \<Rightarrow> 'k) \<Rightarrow> 'a list \<Rightarrow> 'b list \<Rightarrow> ('a \<times> 'b) list" where
  "merge left_on right_on left right =
     concat (map (\<lambda>l. map (Pair l) (filter (\<lambda>r. right_on r = left_on l) right)) left)"

record merged_row =
  of_rating :: rating_row
  of_movie :: movie_row
  of_user :: user_row

definition merged_data :: "rating_row list \<Rightarrow> movie_row list \<Rightarrow> user_row list \<Rightarrow> merged_row list" where
  "merged_data ratings movies users =
     map (\<lambda>((r, m), u). \<lparr>of_rating = r, of_movie = m, of_user = u\<rparr>)
       (merge (\<lambda>(r, m). r_user_id r) u_user_id (merge r_item_id movie_id ratings movies) users)"

subsection \<open>Age groups: \<^verbatim>\<open>pd.cut(age, bins=age_bins, labels=age_labels, right=False)\<close>\<close>

datatype 'a edge = Fin 'a | PInf

fun edge_le :: "'a::linorder edge \<Rightarrow> 'a \<Rightarrow> bool" where
  "edge_le (Fin b) x = (b \<le> x)"
| "edge_le PInf x = False"

text \<open>\<^verbatim>\<open>bins.searchsorted(x, side='right')\<close> on increasing edges: how many edges are at most \<open>x\<close>.\<close>

definition searchsorted_right :: "'a::linorder edge list \<Rightarrow> 'a \<Rightarrow> nat" where
  "searchsorted_right bins x = length (takeWhile (\<lambda>b. edge_le b x) bins)"

definition pd_cut :: "'a::linorder edge list \<Rightarrow> string list \<Rightarrow> 'a \<Rightarrow> string option" where
  "pd_cut bins labels x =
     (let i = searchsorted_right bins x
      in if i = 0 \<or> i = length bins then None else Some (labels ! (i - 1)))"

definition age_bins :: "'a::linordered_idom edge list" where
  "age_bins = [Fin 0, Fin 20, Fin 25, Fin 35, Fin 45, PInf]"

definition age_labels :: "string list" where
  "age_labels = [''<20'', ''20-25'', ''25-35'', ''35-45'', ''45+'']"

definition age_group_of :: "merged_row \<Rightarrow> string option" where
  "age_group_of row = (case u_age (of_user row) of None \<Rightarrow> None | Some a \<Rightarrow> pd_cut age_bins age_labels a)"

subsection \<open>Numeric genre columns: \<^verbatim>\<open>apply(pd.to_numeric, errors='coerce').fillna(0)\<close>\<close>

definition fillna0 :: "64 word option \<Rightarrow> 64 word" where
  "fillna0 v = (case v of None \<Rightarrow> 0 | Some w \<Rightarrow> w)"

definition genre_value :: "merged_row \<Rightarrow> nat \<Rightarrow> 64 word" where
  "genre_value row j = fillna0 (fld (genres (of_movie row)) j)"

subsection \<open>Grouping and summing: \<^verbatim>\<open>groupby(['age_group', 'occupation'], observed=False)[genre_columns].sum()\<close>\<close>

text \<open>
  The occupations of the joined rows, sorted and without duplicates and NaN, are the
  levels of the second key; the levels of the categorical first key are all five labels.
  With \<^verbatim>\<open>observed=False\<close> the result is indexed by the product of the levels, in
  sorted order, and a row whose age group or occupation is NaN belongs to no group.
  The sum of an int64 column is taken in 64-bit arithmetic and wraps around; the summary
  holds its signed value. (A genre column with a missing value is a float64 column in
  pandas, whose sums are these as long as the absolute values of the summands add up to
  at most \<open>2 ^ 53\<close>.)
\<close>

definition occupations :: "merged_row list \<Rightarrow> string list" where
  "occupations rows = sort (remdups (List.map_filter (\<lambda>row. u_occupation (of_user row)) rows))"

definition group_rows :: "merged_row list \<Rightarrow> string \<Rightarrow> string \<Rightarrow> merged_row list" where
  "group_rows rows b occ =
     filter (\<lambda>row. age_group_of row = Some b \<and> u_occupation (of_user row) = Some occ) rows"

definition group_sum :: "merged_row list \<Rightarrow> string \<Rightarrow> string \<Rightarrow> int list" where
  "group_sum rows b occ =
     map (\<lambda>j. sint (sum_list (map (\<lambda>row. genre_value row j) (group_rows rows b occ))))
       [0..<length genre_columns]"

record summary_row =
  s_age_group :: string
  s_occupation :: string
  s_sums :: "int list"

definition genre_summary :: "merged_row list \<Rightarrow> summary_row list" where
  "genre_summary rows =
     concat (map (\<lambda>b. map (\<lambda>occ. \<lparr>s_age_group = b, s_occupation = occ, s_sums = group_sum rows b occ\<rparr>)
                        (occupations rows))
                 age_labels)"

subsection \<open>Top genres: \<^verbatim>\<open>x.nlargest(5).index.tolist()\<close>\<close>

text \<open>
  A series is a list of labelled values. \<^verbatim>\<open>nlargest(n)\<close> (keep the first of equal
  values) sorts the negated values with a stable sort and takes the first \<open>n\<close>.
\<close>

definition nlargest :: "nat \<Rightarrow> (string \<times> int) list \<Rightarrow> (string \<times> int) list" where
  "nlargest n s = take n (sort_key (\<lambda>p. - snd p) s)"

record result_row =
  age_group :: string
  occupation :: string
  top_genres :: "string list"

definition top_of :: "int list \<Rightarrow> string list" where
  "top_of vec = map fst (nlargest 5 (zip genre_columns vec))"

definition top_genres_df :: "merged_row list \<Rightarrow> result_row list" where
  "top_genres_df rows =
     map (\<lambda>g. \<lparr>age_group = s_age_group g, occupation = s_occupation g, top_genres = top_of (s_sums g)\<rparr>)
       (genre_summary rows)"

subsection \<open>Persisting: \<^verbatim>\<open>save_to_postgres\<close>\<close>

text \<open>\<^verbatim>\<open>sep.join(parts)\<close>\<close>

fun join :: "string \<Rightarrow> string list \<Rightarrow> string" where
  "join sep [] = []"
| "join sep [p] = p"
| "join sep (p # q # ps) = p @ sep @ join sep (q # ps)"

definition genres_array :: "string list \<Rightarrow> string" where
  "genres_array gs = ''{'' @ join '', '' (map (\<lambda>genre. [CHR 0x22] @ genre @ [CHR 0x22]) gs) @ ''}''"

record pg_record =
  pg_age_group :: string
  pg_occupation :: string
  pg_top_genres :: string

definition insert_values :: "result_row \<Rightarrow> pg_record" where
  "insert_values row =
     \<lparr>pg_age_group = age_group row, pg_occupation = occupation row,
      pg_top_genres = genres_array (top_genres row)\<rparr>"

text \<open>
  The loop over \<^verbatim>\<open>df.iterrows()\<close>. The connection is not in autocommit mode, so every
  \<^verbatim>\<open>cursor.execute\<close> works on the open transaction, whose view of the table is
  \<open>pending\<close>. \<open>accepts k rec\<close> tells whether the server carries out the \<open>k\<close>-th insert
  of the transaction; when it does not, \<^verbatim>\<open>execute\<close> raises and the loop is left.
\<close>

fun insert_loop :: "(nat \<Rightarrow> pg_record \<Rightarrow> bool) \<Rightarrow> nat \<Rightarrow> result_row list \<Rightarrow> pg_record list
    \<Rightarrow> error + pg_record list" where
  "insert_loop accepts k [] pending = Inr pending"
| "insert_loop accepts k (row # df) pending =
     (if accepts k (insert_values row)
      then insert_loop accepts (Suc k) df (pending @ [insert_values row])
      else Inl PersistenceError)"

text \<open>
  The table is \<open>None\<close> while it does not exist. \<^verbatim>\<open>CREATE TABLE IF NOT EXISTS\<close> and
  the inserts belong to one transaction, and the only \<^verbatim>\<open>conn.commit()\<close> follows the
  loop: an exception leaves the function before it, and the stored table stays as it was.
  The result pairs the outcome of the call with the stored table after it.
\<close>

definition save_to_postgres :: "(nat \<Rightarrow> pg_record \<Rightarrow> bool) \<Rightarrow> pg_record list option \<Rightarrow> result_row list
    \<Rightarrow> (error + unit) \<times> pg_record list option" where
  "save_to_postgres accepts table df =
     (let created = (case table of None \<Rightarrow> [] | Some recs \<Rightarrow> recs) in
      case insert_loop accepts 0 df created of
        Inl e \<Rightarrow> (Inl e, table)
      | Inr pending \<Rightarrow> (Inr (), Some pending))"

subsection \<open>The operator: \<^verbatim>\<open>execute\<close>\<close>

text \<open>
  The three files are read in turn, and an exception of a read ends the run. An age
  column that holds a string is a column of strings, which \<^verbatim>\<open>pd.cut\<close> cannot compare
  with the bin edges: it raises \<^verbatim>\<open>TypeError\<close> as soon as there is a joined row.
\<close>

definition execute :: "source \<Rightarrow> source \<Rightarrow> source \<Rightarrow> (nat \<Rightarrow> pg_record \<Rightarrow> bool) \<Rightarrow> pg_record list option
    \<Rightarrow> (error + unit) \<times> pg_record list option" where
  "execute ratings_data movies_data user_data accepts table =
     (case read_csv (length ratings_names) ratings_data of
        Inl e \<Rightarrow> (Inl e, table)
      | Inr ratings \<Rightarrow>
     (case read_csv (length movies_names) movies_data of
        Inl e \<Rightarrow> (Inl e, table)
      | Inr movies \<Rightarrow>
     (case read_csv (length users_names) user_data of
        Inl e \<Rightarrow> (Inl e, table)
      | Inr users \<Rightarrow>
          (let merged = merged_data (map rating_of ratings) (map movie_of movies) (map user_of users)
           in if merged \<noteq> [] \<and> list_ex (\<lambda>fs. is_txt (fld fs 1)) users
              then (Inl TypeError, table)
              else save_to_postgres accepts table (top_genres_df merged)))))"

subsection \<open>Notions of the specification and sample tables\<close>

text \<open>An interaction is matched when its item and its user occur as keys of the two tables.\<close>

definition matched :: "movie_row list \<Rightarrow> user_row list \<Rightarrow> rating_row \<Rightarrow> bool" where
  "matched movies users r \<longleftrightarrow>
     r_item_id r \<in> movie_id ` set movies \<and> r_user_id r \<in> u_user_id ` set users"

text \<open>
  The scenario of the specification: one interaction of rating 5, an item whose only set
  flag is Comedy, a user of age 22 and occupation engineer.
\<close>

definition scenario_ratings :: "rating_row list" where
  "scenario_ratings = [\<lparr>r_user_id = Some 1, r_item_id = Some 1, r_rating = Some 5, r_timestamp = Some 0\<rparr>]"

definition scenario_movies :: "movie_row list" where
  "scenario_movies =
     [\<lparr>movie_id = Some 1,
       genres = [Some 0, Some 0, Some 0, Some 0, Some 0, Some 1, Some 0, Some 0, Some 0, Some 0,
                 Some 0, Some 0, Some 0, Some 0, Some 0, Some 0, Some 0, Some 0, Some 0]\<rparr>]"

definition scenario_users :: "user_row list" where
  "scenario_users = [\<lparr>u_user_id = Some 1, u_age = Some 22, u_occupation = Some ''engineer''\<rparr>]"

definition scenario_rows :: "merged_row list" where
  "scenario_rows = merged_data scenario_ratings scenario_movies scenario_users"

text \<open>An item table that lists the item of the scenario twice.\<close>

definition dup_movies :: "movie_row list" where
  "dup_movies = scenario_movies @ scenario_movies"

text \<open>
  The sum the specification describes: every member row of the group contributes its
  rating times its flag.
\<close>

definition rating_weighted_sum :: "merged_row list \<Rightarrow> string \<Rightarrow> string \<Rightarrow> nat \<Rightarrow> int" where
  "rating_weighted_sum rows b occ j =
     sum_list (map (\<lambda>row. (case r_rating (of_rating row) of None \<Rightarrow> 0 | Some r \<Rightarrow> r)
                             * sint (genre_value row j))
                 (group_rows rows b occ))"

text \<open>The key of a row of the result.\<close>

definition result_key :: "result_row \<Rightarrow> string \<times> string" where
  "result_key out = (age_group out, occupation out)"

text \<open>
  The declared index of a column, the summed value of a named column in the vector of a
  group, and the order of the ranking: a larger sum first, and of two equal sums the
  column declared first.
\<close>

fun index_of :: "'a list \<Rightarrow> 'a \<Rightarrow> nat" where
  "index_of [] x = 0"
| "index_of (y # ys) x = (if x = y then 0 else Suc (index_of ys x))"

definition summed :: "int list \<Rightarrow> string \<Rightarrow> int" where
  "summed vec c = (case map_of (zip genre_columns vec) c of None \<Rightarrow> 0 | Some v \<Rightarrow> v)"

definition ranks_before :: "int list \<Rightarrow> string \<Rightarrow> string \<Rightarrow> bool" where
  "ranks_before vec c c' \<longleftrightarrow>
     summed vec c' < summed vec c
     \<or> (summed vec c' = summed vec c \<and> index_of genre_columns c < index_of genre_columns c')"

text \<open>The whole ranking of the columns of a group, of which the top genres are the first five.\<close>

definition ranked :: "int list \<Rightarrow> string list" where
  "ranked vec = map fst (sort_key (\<lambda>p. - snd p) (zip genre_columns vec))"

text \<open>
  The files of the scenario, the interaction line without its last field (the timestamp),
  a server that carries out every insert and one that fails at the third.
\<close>

definition short_ratings_data :: source where
  "short_ratings_data = Some [[Some (Num 1), Some (Num 1), Some (Num 5)]]"

definition scenario_movies_data :: source where
  "scenario_movies_data =
     Some [[Some (Num 1), Some (Txt ''Toy Story (1995)''), Some (Txt ''01-Jan-1995''), None,
            Some (Txt ''http://us.imdb.com/M/title-exact?Toy%20Story%20(1995)''),
            Some (Num 0), Some (Num 0), Some (Num 0), Some (Num 0), Some (Num 0), Some (Num 1),
            Some (Num 0), Some (Num 0), Some (Num 0), Some (Num 0), Some (Num 0), Some (Num 0),
            Some (Num 0), Some (Num 0), Some (Num 0), Some (Num 0), Some (Num 0), Some (Num 0),
            Some (Num 0)]]"

definition scenario_user_data :: source where
  "scenario_user_data =
     Some [[Some (Num 1), Some (Num 22), Some (Txt ''M''), Some (Txt ''engineer''), Some (Num 85711)]]"

definition always_accepts :: "nat \<Rightarrow> pg_record \<Rightarrow> bool" where
  "always_accepts k rec = True"

definition third_insert_fails :: "nat \<Rightarrow> pg_record \<Rightarrow> bool" where
  "third_insert_fails k rec \<longleftrightarrow> k < 2"

text \<open>A joined row of a user of negative age.\<close>

definition negative_age_row :: merged_row where
  "negative_age_row =
     \<lparr>of_rating = \<lparr>r_user_id = Some 2, r_item_id = Some 1, r_rating = Some 4, r_timestamp = Some 0\<rparr>,
      of_movie = hd scenario_movies,
      of_user = \<lparr>u_user_id = Some 2, u_age = Some (- 3), u_occupation = Some ''artist''\<rparr>\<rparr>"

section \<open>Age groups\<close>

lemma cut_age_cases:
  fixes a :: "'a::linordered_idom"
  shows "pd_cut age_bins age_labels a =
     (if a < 0 then None
      else if a < 20 then Some ''<20''
      else if a < 25 then Some ''20-25''
      else if a < 35 then Some ''25-35''
      else if a < 45 then Some ''35-45''
      else Some ''45+'')"
  by (simp add: pd_cut_def searchsorted_right_def age_bins_def age_labels_def not_less)

lemma set_age_labels: "set age_labels = {''<20'', ''20-25'', ''25-35'', ''35-45'', ''45+''}"
  by (simp add: age_labels_def)

text \<open>
  C5: every non-negative age gets the label of the half-open interval that holds it:
  below 20, from 20 to below 25, from 25 to below 35, from 35 to below 45, and 45 or more;
  so exactly one of the five labels is assigned. The age is any element of an ordered
  ring (integer, rational or real), which covers every finite number.
\<close>

theorem age_bucket_partition:
  fixes a :: "'a::linordered_idom"
  assumes "0 \<le> a"
  shows "(pd_cut age_bins age_labels a = Some ''<20'' \<longleftrightarrow> a < 20)
       \<and> (pd_cut age_bins age_labels a = Some ''20-25'' \<longleftrightarrow> 20 \<le> a \<and> a < 25)
       \<and> (pd_cut age_bins age_labels a = Some ''25-35'' \<longleftrightarrow> 25 \<le> a \<and> a < 35)
       \<and> (pd_cut age_bins age_labels a = Some ''35-45'' \<longleftrightarrow> 35 \<le> a \<and> a < 45)
       \<and> (pd_cut age_bins age_labels a = Some ''45+'' \<longleftrightarrow> 45 \<le> a)
       \<and> (\<exists>!l. l \<in> set age_labels \<and> pd_cut age_bins age_labels a = Some l)"
proof -
  have n: "\<not> a < 0" using assms by simp
  have 1: "pd_cut age_bins age_labels a = Some ''<20'' \<longleftrightarrow> a < 20"
    using n by (simp add: cut_age_cases)
  have 2: "pd_cut age_bins age_labels a = Some ''20-25'' \<longleftrightarrow> 20 \<le> a \<and> a < 25"
    using n by (simp add: cut_age_cases not_less)
  have 3: "pd_cut age_bins age_labels a = Some ''25-35'' \<longleftrightarrow> 25 \<le> a \<and> a < 35"
    using n by (simp add: cut_age_cases not_less)
  have 4: "pd_cut age_bins age_labels a = Some ''35-45'' \<longleftrightarrow> 35 \<le> a \<and> a < 45"
    using n by (simp add: cut_age_cases not_less)
  have 5: "pd_cut age_bins age_labels a = Some ''45+'' \<longleftrightarrow> 45 \<le> a"
    using n by (simp add: cut_age_cases not_less)
  have "\<exists>l. l \<in> set age_labels \<and> pd_cut age_bins age_labels a = Some l"
    using n by (simp add: cut_age_cases set_age_labels)
  then have 6: "\<exists>!l. l \<in> set age_labels \<and> pd_cut age_bins age_labels a = Some l"
    by auto
  from 1 2 3 4 5 6 show ?thesis by blast
qed

theorem age_bucket_partition_witness:
  "(0::real) \<le> 49 / 2 \<and> pd_cut age_bins age_labels (49 / 2 :: real) = Some ''20-25''
   \<and> (\<exists>!l. l \<in> set age_labels \<and> pd_cut age_bins age_labels (49 / 2 :: real) = Some l)"
proof -
  have h: "(0::real) \<le> 49 / 2" by simp
  have b: "(20::real) \<le> 49 / 2 \<and> (49 / 2 :: real) < 25" by simp
  from age_bucket_partition [OF h] b h show ?thesis by blast
qed

section \<open>The join\<close>

lemma length_filter_key:
  "distinct (map rk right) \<Longrightarrow>
   length (filter (\<lambda>r. rk r = k) right) = (if k \<in> rk ` set right then 1 else 0)"
  by (induction right) auto

lemma map_fst_merge:
  assumes "distinct (map rk right)"
  shows "map fst (merge lk rk left right) = filter (\<lambda>l. lk l \<in> rk ` set right) left"
proof -
  have one: "map fst (map (Pair l) (filter (\<lambda>r. rk r = lk l) right))
      = (if lk l \<in> rk ` set right then [l] else [])" for l
  proof -
    have "map fst (map (Pair l) (filter (\<lambda>r. rk r = lk l) right))
        = replicate (length (filter (\<lambda>r. rk r = lk l) right)) l"
      by (simp add: map_replicate_const comp_def)
    then show ?thesis
      by (simp add: length_filter_key [OF assms])
  qed
  show ?thesis
    unfolding merge_def
    by (induction left) (simp_all add: one del: map_map)
qed

lemma of_rating_merged_data:
  assumes "distinct (map movie_id movies)" and "distinct (map u_user_id users)"
  shows "map of_rating (merged_data ratings movies users) = filter (matched movies users) ratings"
proof -
  let ?m1 = "merge r_item_id movie_id ratings movies"
  let ?m2 = "merge (\<lambda>(r, m). r_user_id r) u_user_id ?m1 users"
  have "map of_rating (merged_data ratings movies users) = map fst (map fst ?m2)"
    by (simp add: merged_data_def comp_def case_prod_unfold)
  also have "map fst ?m2 = filter (\<lambda>p. r_user_id (fst p) \<in> u_user_id ` set users) ?m1"
    by (simp add: map_fst_merge [OF assms(2)] case_prod_unfold)
  also have "map fst \<dots> = filter (\<lambda>r. r_user_id r \<in> u_user_id ` set users) (map fst ?m1)"
    by (simp add: filter_map comp_def)
  also have "\<dots> = filter (matched movies users) ratings"
    by (simp add: map_fst_merge [OF assms(1)] matched_def [abs_def] conj_commute)
  finally show ?thesis .
qed

text \<open>
  C6, amended: when no item id occurs twice in the item table and no user id twice in the
  user table, the joined rows are exactly the matched interactions, one row each and in
  their order; so there are at most as many joined rows as interactions, with equality
  exactly when every interaction is matched. An unmatched interaction is left out and the
  join returns a table, never an error.
\<close>

theorem join_cardinality:
  assumes "distinct (map movie_id movies)" and "distinct (map u_user_id users)"
  shows "map of_rating (merged_data ratings movies users) = filter (matched movies users) ratings
       \<and> length (merged_data ratings movies users) \<le> length ratings
       \<and> (length (merged_data ratings movies users) = length ratings
            \<longleftrightarrow> (\<forall>r\<in>set ratings. matched movies users r))"
proof -
  have eq: "map of_rating (merged_data ratings movies users) = filter (matched movies users) ratings"
    by (rule of_rating_merged_data [OF assms])
  have len: "length (merged_data ratings movies users) = length (filter (matched movies users) ratings)"
    using arg_cong [OF eq, of length] by simp
  have "length (filter (matched movies users) ratings) = length ratings
      \<longleftrightarrow> (\<forall>r\<in>set ratings. matched movies users r)"
    by (metis filter_id_conv length_filter_less less_irrefl)
  with eq len show ?thesis by simp
qed


text \<open>
  C6 as stated fails when a key is repeated in the item table: the merge pairs the
  interaction with both item rows, and one interaction gives two joined rows.
\<close>

theorem join_cardinality_counterexample:
  "\<not> length (merged_data scenario_ratings dup_movies scenario_users) \<le> length scenario_ratings"
  by (simp add: merged_data_def merge_def scenario_ratings_def dup_movies_def scenario_movies_def
      scenario_users_def)

theorem join_cardinality_witness:
  "distinct (map movie_id scenario_movies)
   \<and> distinct (map u_user_id scenario_users)
   \<and> length (merged_data
         (scenario_ratings
          @ [\<lparr>r_user_id = Some 1, r_item_id = Some 9, r_rating = Some 3, r_timestamp = Some 1\<rparr>])
         scenario_movies scenario_users) = 1"
proof -
  have d1: "distinct (map movie_id scenario_movies)" by (simp add: scenario_movies_def)
  have d2: "distinct (map u_user_id scenario_users)" by (simp add: scenario_users_def)
  have "length (map of_rating (merged_data
         (scenario_ratings
          @ [\<lparr>r_user_id = Some 1, r_item_id = Some 9, r_rating = Some 3, r_timestamp = Some 1\<rparr>])
         scenario_movies scenario_users)) = 1"
    using join_cardinality [OF d1 d2]
    by (simp add: matched_def scenario_ratings_def scenario_movies_def scenario_users_def)
  with d1 d2 show ?thesis by simp
qed

section \<open>Grouping and summing\<close>

lemma scenario_rows_eq:
  "scenario_rows =
     [\<lparr>of_rating = hd scenario_ratings, of_movie = hd scenario_movies, of_user = hd scenario_users\<rparr>]"
  by (simp add: scenario_rows_def merged_data_def merge_def scenario_ratings_def
      scenario_movies_def scenario_users_def)

lemma scenario_group:
  "group_rows scenario_rows ''20-25'' ''engineer'' = scenario_rows"
  by (simp add: scenario_rows_eq group_rows_def age_group_of_def cut_age_cases scenario_users_def)

lemma length_genre_columns: "length genre_columns = 19"
  by (simp add: genre_columns_def)

lemma length_group_sum: "length (group_sum rows b occ) = length genre_columns"
  by (simp add: group_sum_def)

lemma sint_add64:
  fixes a b :: "64 word"
  shows "sint (a + b) = signed_take_bit 63 (sint a + sint b)"
  using sint_word_add [of a b] by simp

lemma sint_self64:
  fixes a :: "64 word"
  shows "signed_take_bit 63 (sint a) = sint a"
  using sint_ge [of a] sint_lt [of a] by (intro signed_take_bit_int_eq_self) simp_all

lemma sint_sum_list:
  fixes ws :: "64 word list"
  shows "sint (sum_list ws) = signed_take_bit 63 (sum_list (map sint ws))"
proof (induction ws)
  case Nil
  then show ?case by simp
next
  case (Cons w ws)
  have "sint (w + sum_list ws) = signed_take_bit 63 (sint w + sint (sum_list ws))"
    by (rule sint_add64)
  also have "\<dots> = signed_take_bit 63 (signed_take_bit 63 (sint w)
      + signed_take_bit 63 (sum_list (map sint ws)))"
    by (simp only: Cons.IH sint_self64)
  also have "\<dots> = signed_take_bit 63 (sint w + sum_list (map sint ws))"
    by (rule signed_take_bit_add)
  finally show ?case by simp
qed


lemma abs_sum_list_le: "\<bar>sum_list xs\<bar> \<le> sum_list (map abs xs)" for xs :: "int list"
  by (induction xs) auto

lemma signed_take_bit_small:
  fixes xs :: "int list"
  assumes "sum_list (map abs xs) \<le> 2 ^ 53"
  shows "signed_take_bit 63 (sum_list xs) = sum_list xs"
proof -
  have "\<bar>sum_list xs\<bar> \<le> 2 ^ 53"
    using abs_sum_list_le [of xs] assms by (rule order_trans)
  moreover have "(2::int) ^ 53 < 2 ^ 63"
    by (rule power_strict_increasing) simp_all
  ultimately have "- (2 ^ 63) \<le> sum_list xs" and "sum_list xs < 2 ^ 63"
    by linarith+
  then show ?thesis
    by (rule signed_take_bit_int_eq_self)
qed

lemma group_sum_nth:
  "j < length genre_columns \<Longrightarrow>
   group_sum rows b occ ! j
     = signed_take_bit 63 (sum_list (map (\<lambda>row. sint (genre_value row j)) (group_rows rows b occ)))"
  by (simp add: group_sum_def sint_sum_list comp_def)

lemma genre_summary_row:
  "g \<in> set (genre_summary rows) \<Longrightarrow> s_sums g = group_sum rows (s_age_group g) (s_occupation g)"
  by (auto simp add: genre_summary_def)

lemma set_map_filter_conv: "set (List.map_filter f xs) = {y. \<exists>x\<in>set xs. f x = Some y}"
  by (induction xs) (auto split: option.splits)

lemma set_occupations:
  "set (occupations rows) = {occ. \<exists>row\<in>set rows. u_occupation (of_user row) = Some occ}"
  by (simp add: occupations_def set_map_filter_conv)

lemma distinct_occupations: "distinct (occupations rows)"
  by (simp add: occupations_def)

lemma distinct_age_labels: "distinct age_labels"
  by (simp add: age_labels_def)

lemma age_group_of_label: "age_group_of row = Some b \<Longrightarrow> b \<in> set age_labels"
  by (auto simp add: age_group_of_def cut_age_cases set_age_labels split: option.splits if_splits)

lemma keys_top_genres_df:
  "map result_key (top_genres_df rows) = List.product age_labels (occupations rows)"
  by (simp add: top_genres_df_def genre_summary_def result_key_def product_concat_map
      map_concat comp_def)

lemma top_genres_df_row:
  "out \<in> set (top_genres_df rows) \<Longrightarrow>
   top_genres out = top_of (group_sum rows (age_group out) (occupation out))"
  by (auto simp add: top_genres_df_def genre_summary_def)


lemma top_of_zeros: "top_of (replicate (length genre_columns) 0) = take 5 genre_columns"
  by (simp add: top_of_def nlargest_def genre_columns_def numeral_eq_Suc)

lemma group_sum_empty:
  "group_rows rows b occ = [] \<Longrightarrow> group_sum rows b occ = replicate (length genre_columns) 0"
  by (simp add: group_sum_def map_replicate_const)

text \<open>
  C2, amended: the result has exactly one row for every pair of one of the five age
  labels and an occupation that occurs in the joined data; so every pair that occurs
  has exactly one row, and a pair of that product with no occurrence is present too,
  with all sums zero and therefore the first five declared columns as its top genres.
\<close>

theorem groups_cover_product:
  "distinct (map result_key (top_genres_df rows))
   \<and> set (map result_key (top_genres_df rows))
       = set age_labels \<times> {occ. \<exists>row\<in>set rows. u_occupation (of_user row) = Some occ}
   \<and> (\<forall>row\<in>set rows. \<forall>b occ.
         age_group_of row = Some b \<and> u_occupation (of_user row) = Some occ
         \<longrightarrow> length (filter (\<lambda>out. result_key out = (b, occ)) (top_genres_df rows)) = 1)
   \<and> (\<forall>out\<in>set (top_genres_df rows).
         group_rows rows (age_group out) (occupation out) = []
         \<longrightarrow> group_sum rows (age_group out) (occupation out) = replicate (length genre_columns) 0
             \<and> top_genres out = take 5 genre_columns)"
proof -
  let ?keys = "map result_key (top_genres_df rows)"
  have d: "distinct ?keys"
    by (simp add: keys_top_genres_df distinct_product distinct_age_labels distinct_occupations)
  have s: "set ?keys = set age_labels \<times> {occ. \<exists>row\<in>set rows. u_occupation (of_user row) = Some occ}"
    by (simp only: keys_top_genres_df set_product set_occupations)
  have one: "length (filter (\<lambda>out. result_key out = (b, occ)) (top_genres_df rows)) = 1"
    if "row \<in> set rows" and "age_group_of row = Some b" and "u_occupation (of_user row) = Some occ"
    for row b occ
  proof -
    have "(b, occ) \<in> set ?keys"
      unfolding s using that age_group_of_label by blast
    then show ?thesis
      using length_filter_key [OF d, of "(b, occ)"] by simp
  qed
  have z: "group_sum rows (age_group out) (occupation out) = replicate (length genre_columns) 0
      \<and> top_genres out = take 5 genre_columns"
    if "out \<in> set (top_genres_df rows)" and "group_rows rows (age_group out) (occupation out) = []"
    for out
    using that by (simp add: top_genres_df_row group_sum_empty top_of_zeros)
  from d s one z show ?thesis by blast
qed

text \<open>
  C2 as stated fails in the scenario: no joined row has age group 45+ and occupation
  engineer, and the result has a row for that pair.
\<close>

theorem groups_cover_product_counterexample:
  "group_rows scenario_rows ''45+'' ''engineer'' = []
   \<and> (''45+'', ''engineer'') \<in> set (map result_key (top_genres_df scenario_rows))"
proof -
  have r: "scenario_rows =
      [\<lparr>of_rating = hd scenario_ratings, of_movie = hd scenario_movies, of_user = hd scenario_users\<rparr>]"
    by (simp add: scenario_rows_def merged_data_def merge_def scenario_ratings_def
        scenario_movies_def scenario_users_def)
  have a: "group_rows scenario_rows ''45+'' ''engineer'' = []"
    by (simp add: r group_rows_def age_group_of_def cut_age_cases scenario_users_def)
  have "occupations scenario_rows = [''engineer'']"
    by (simp add: r occupations_def scenario_users_def)
  then have b: "(''45+'', ''engineer'') \<in> set (map result_key (top_genres_df scenario_rows))"
    by (simp add: keys_top_genres_df set_age_labels)
  from a b show ?thesis by simp
qed

theorem groups_cover_product_witness:
  "hd scenario_rows \<in> set scenario_rows
   \<and> age_group_of (hd scenario_rows) = Some ''20-25''
   \<and> u_occupation (of_user (hd scenario_rows)) = Some ''engineer''
   \<and> length (filter (\<lambda>out. result_key out = (''20-25'', ''engineer'')) (top_genres_df scenario_rows)) = 1"
proof -
  have m: "hd scenario_rows \<in> set scenario_rows"
    by (simp add: scenario_rows_eq)
  have a: "age_group_of (hd scenario_rows) = Some ''20-25''"
    by (simp add: scenario_rows_eq age_group_of_def cut_age_cases scenario_users_def)
  have o: "u_occupation (of_user (hd scenario_rows)) = Some ''engineer''"
    by (simp add: scenario_rows_eq scenario_users_def)
  from groups_cover_product [of scenario_rows] m a o show ?thesis by blast
qed

lemma group_rows_ratings:
  "group_rows (map (\<lambda>row. row\<lparr>of_rating := f row\<rparr>) rows) b occ
     = map (\<lambda>row. row\<lparr>of_rating := f row\<rparr>) (group_rows rows b occ)"
  by (simp add: group_rows_def filter_map comp_def age_group_of_def)

lemma group_sum_ratings:
  "group_sum (map (\<lambda>row. row\<lparr>of_rating := f row\<rparr>) rows) b occ = group_sum rows b occ"
  by (simp add: group_sum_def group_rows_ratings comp_def genre_value_def)

lemma occupations_ratings:
  "occupations (map (\<lambda>row. row\<lparr>of_rating := f row\<rparr>) rows) = occupations rows"
proof -
  have "List.map_filter (\<lambda>row. u_occupation (of_user row)) (map (\<lambda>row. row\<lparr>of_rating := f row\<rparr>) rows)
      = List.map_filter (\<lambda>row. u_occupation (of_user row)) rows"
    by (induction rows) (simp_all add: List.map_filter_def)
  then show ?thesis by (simp add: occupations_def)
qed

lemma scenario_comedy_value: "genre_value (hd scenario_rows) 5 = 1"
  by (simp add: scenario_rows_eq genre_value_def fld_def fillna0_def scenario_movies_def)

lemma scenario_comedy_sum: "group_sum scenario_rows ''20-25'' ''engineer'' ! 5 = 1"
  using scenario_comedy_value
  by (simp add: group_sum_def length_genre_columns scenario_group) (simp add: scenario_rows_eq)

lemma group_rows_members:
  "group_rows rows b occ
     = filter (\<lambda>row. (case u_age (of_user row) of None \<Rightarrow> False
                          | Some a \<Rightarrow> pd_cut age_bins age_labels a = Some b)
                       \<and> u_occupation (of_user row) = Some occ) rows"
  unfolding group_rows_def age_group_of_def
  by (rule filter_cong) (auto split: option.splits)

lemma sint_genre_value:
  "sint (genre_value row j)
     = (if j < length (genres (of_movie row))
        then (case genres (of_movie row) ! j of None \<Rightarrow> 0 | Some w \<Rightarrow> sint w) else 0)"
  by (simp add: genre_value_def fillna0_def fld_def split: option.splits)

text \<open>
  C1, amended: for every (age group, occupation) group of the summary, the entry of each
  genre column is the sum of the coerced flags (a missing flag counts 0) of the rows
  whose age falls in the bucket of the group and whose occupation is that of the group,
  whenever the absolute values of these flags add up to at most \<open>2 ^ 53\<close> (beyond the
  64-bit range the sum of the column wraps around). The rating is not a factor:
  replacing the ratings of the rows by any others leaves the summary as it is. In the
  scenario the Comedy sum of the group is 1.
\<close>

theorem genre_summary_unweighted:
  "(\<forall>g\<in>set (genre_summary rows). \<forall>j<length genre_columns.
      (let members =
             filter (\<lambda>row. (case u_age (of_user row) of None \<Rightarrow> False
                               | Some a \<Rightarrow> pd_cut age_bins age_labels a = Some (s_age_group g))
                            \<and> u_occupation (of_user row) = Some (s_occupation g)) rows;
           flags =
             map (\<lambda>row. if j < length (genres (of_movie row))
                        then (case genres (of_movie row) ! j of None \<Rightarrow> 0 | Some w \<Rightarrow> sint w)
                        else 0) members
       in length (s_sums g) = length genre_columns
          \<and> (sum_list (map abs flags) \<le> 2 ^ 53 \<longrightarrow> s_sums g ! j = sum_list flags)))
   \<and> genre_summary (map (\<lambda>row. row\<lparr>of_rating := f row\<rparr>) rows) = genre_summary rows
   \<and> group_sum scenario_rows ''20-25'' ''engineer'' ! 5 = 1"
proof -
  have a: "length (s_sums g) = length genre_columns" if "g \<in> set (genre_summary rows)" for g
    using that by (simp add: genre_summary_row length_group_sum)
  have b: "s_sums g ! j = sum_list flags"
    if g: "g \<in> set (genre_summary rows)" and j: "j < length genre_columns"
      and members: "members =
             filter (\<lambda>row. (case u_age (of_user row) of None \<Rightarrow> False
                               | Some a \<Rightarrow> pd_cut age_bins age_labels a = Some (s_age_group g))
                            \<and> u_occupation (of_user row) = Some (s_occupation g)) rows"
      and flags: "flags =
             map (\<lambda>row. if j < length (genres (of_movie row))
                        then (case genres (of_movie row) ! j of None \<Rightarrow> 0 | Some w \<Rightarrow> sint w)
                        else 0) members"
      and bound: "sum_list (map abs flags) \<le> 2 ^ 53"
    for g j members flags
  proof -
    have m: "group_rows rows (s_age_group g) (s_occupation g) = members"
      unfolding members by (rule group_rows_members)
    have "map (\<lambda>row. sint (genre_value row j)) members = flags"
      unfolding flags by (simp add: sint_genre_value)
    then have "s_sums g ! j = signed_take_bit 63 (sum_list flags)"
      using g j m by (simp add: genre_summary_row group_sum_nth)
    also have "\<dots> = sum_list flags"
      using bound by (rule signed_take_bit_small)
    finally show ?thesis .
  qed
  have c: "genre_summary (map (\<lambda>row. row\<lparr>of_rating := f row\<rparr>) rows) = genre_summary rows"
    by (simp add: genre_summary_def group_sum_ratings occupations_ratings)
  have d: "group_sum scenario_rows ''20-25'' ''engineer'' ! 5 = 1"
    by (rule scenario_comedy_sum)
  from a b have "\<forall>g\<in>set (genre_summary rows). \<forall>j<length genre_columns.
      (let members =
             filter (\<lambda>row. (case u_age (of_user row) of None \<Rightarrow> False
                               | Some a \<Rightarrow> pd_cut age_bins age_labels a = Some (s_age_group g))
                            \<and> u_occupation (of_user row) = Some (s_occupation g)) rows;
           flags =
             map (\<lambda>row. if j < length (genres (of_movie row))
                        then (case genres (of_movie row) ! j of None \<Rightarrow> 0 | Some w \<Rightarrow> sint w)
                        else 0) members
       in length (s_sums g) = length genre_columns
          \<and> (sum_list (map abs flags) \<le> 2 ^ 53 \<longrightarrow> s_sums g ! j = sum_list flags))"
    unfolding Let_def by blast
  with c d show ?thesis by blast
qed

text \<open>
  C1 as stated fails in the scenario of the specification: the interaction has rating 5
  and Comedy flag 1, the rating-weighted sum is 5, and the summed Comedy column of the
  group is 1.
\<close>

theorem genre_summary_unweighted_counterexample:
  "genre_columns ! 5 = ''Comedy''
   \<and> group_sum scenario_rows ''20-25'' ''engineer'' ! 5 = 1
   \<and> rating_weighted_sum scenario_rows ''20-25'' ''engineer'' 5 = 5"
proof -
  have a: "genre_columns ! 5 = ''Comedy''"
    by (simp add: genre_columns_def)
  have v: "genre_value (hd scenario_rows) 5 = 1"
    by (rule scenario_comedy_value)
  have b: "group_sum scenario_rows ''20-25'' ''engineer'' ! 5 = 1"
    by (rule scenario_comedy_sum)
  have c: "rating_weighted_sum scenario_rows ''20-25'' ''engineer'' 5 = 5"
    using v by (simp add: rating_weighted_sum_def scenario_group)
      (simp add: scenario_rows_eq scenario_ratings_def)
  from a b c show ?thesis by simp
qed

theorem genre_summary_unweighted_witness:
  "\<lparr>s_age_group = ''20-25'', s_occupation = ''engineer'',
     s_sums = group_sum scenario_rows ''20-25'' ''engineer''\<rparr> \<in> set (genre_summary scenario_rows)
   \<and> 5 < length genre_columns
   \<and> sum_list (map abs [1 :: int]) \<le> 2 ^ 53
   \<and> group_sum scenario_rows ''20-25'' ''engineer'' ! 5 = sum_list [1]"
proof -
  let ?g = "\<lparr>s_age_group = ''20-25'', s_occupation = ''engineer'',
     s_sums = group_sum scenario_rows ''20-25'' ''engineer''\<rparr>"
  have "occupations scenario_rows = [''engineer'']"
    by (simp add: scenario_rows_eq occupations_def scenario_users_def)
  then have m: "?g \<in> set (genre_summary scenario_rows)"
    by (simp add: genre_summary_def age_labels_def)
  have j: "5 < length genre_columns"
    by (simp add: length_genre_columns)
  have e: "filter (\<lambda>row. (case u_age (of_user row) of None \<Rightarrow> False
                               | Some a \<Rightarrow> pd_cut age_bins age_labels a = Some ''20-25'')
                            \<and> u_occupation (of_user row) = Some ''engineer'') scenario_rows
      = scenario_rows"
    by (simp add: scenario_rows_eq scenario_users_def cut_age_cases)
  have v: "map (\<lambda>row. if 5 < length (genres (of_movie row))
                        then (case genres (of_movie row) ! 5 of None \<Rightarrow> 0 | Some w \<Rightarrow> sint w)
                        else 0) scenario_rows = [1 :: int]"
    by (simp add: scenario_rows_eq scenario_movies_def)
  have b: "sum_list (map abs [1 :: int]) \<le> 2 ^ 53"
    by simp
  note t = genre_summary_unweighted [of scenario_rows, THEN conjunct1, rule_format, OF m j]
  from t have "sum_list (map abs [1 :: int]) \<le> 2 ^ 53 \<longrightarrow> s_sums ?g ! 5 = sum_list [1]"
    by (simp only: Let_def summary_row.select_convs e v) simp
  with m j b show ?thesis by simp
qed






section \<open>Top genres\<close>

lemma index_of_nth: "distinct xs \<Longrightarrow> i < length xs \<Longrightarrow> index_of xs (xs ! i) = i"
proof (induction xs arbitrary: i)
  case Nil
  then show ?case by simp
next
  case (Cons y ys)
  then show ?case by (cases i) auto
qed

lemma sorted_wrt_insort_key_stable:
  fixes f :: "'a \<Rightarrow> 'k::linorder"
  assumes "sorted_wrt (\<lambda>a b. f a < f b \<or> (f a = f b \<and> Q a b)) ys" and "\<forall>y\<in>set ys. Q x y"
  shows "sorted_wrt (\<lambda>a b. f a < f b \<or> (f a = f b \<and> Q a b)) (insort_key f x ys)"
  using assms
proof (induction ys)
  case Nil
  then show ?case by simp
next
  case (Cons y ys)
  show ?case
  proof (cases "f x \<le> f y")
    case True
    have "f x < f z \<or> (f x = f z \<and> Q x z)" if "z \<in> set (y # ys)" for z
    proof -
      have "f y \<le> f z" using that Cons.prems(1) by auto
      with True have "f x \<le> f z" by simp
      moreover have "Q x z" using that Cons.prems(2) by auto
      ultimately show ?thesis by auto
    qed
    with True Cons.prems(1) show ?thesis by simp
  next
    case False
    have "sorted_wrt (\<lambda>a b. f a < f b \<or> (f a = f b \<and> Q a b)) (insort_key f x ys)"
      using Cons by simp
    moreover have "f y < f z \<or> (f y = f z \<and> Q y z)" if "z \<in> set (insort_key f x ys)" for z
      using that False Cons.prems(1) by (auto simp add: set_insort_key)
    ultimately show ?thesis using False by simp
  qed
qed

lemma sorted_wrt_sort_key_stable:
  fixes f :: "'a \<Rightarrow> 'k::linorder"
  assumes "sorted_wrt Q xs"
  shows "sorted_wrt (\<lambda>a b. f a < f b \<or> (f a = f b \<and> Q a b)) (sort_key f xs)"
  using assms
proof (induction xs)
  case Nil
  then show ?case by simp
next
  case (Cons x xs)
  have "sorted_wrt (\<lambda>a b. f a < f b \<or> (f a = f b \<and> Q a b)) (sort_key f xs)"
    using Cons by simp
  moreover have "\<forall>y\<in>set (sort_key f xs). Q x y"
    using Cons.prems by simp
  ultimately show ?case
    by (simp add: sorted_wrt_insort_key_stable)
qed

lemma distinct_genre_columns: "distinct genre_columns"
  by (simp add: genre_columns_def)

lemma summed_pair:
  assumes "length vec = length genre_columns" and "p \<in> set (zip genre_columns vec)"
  shows "snd p = summed vec (fst p)"
proof -
  have "distinct (map fst (zip genre_columns vec))"
    using assms(1) by (simp add: distinct_genre_columns)
  moreover have "(fst p, snd p) \<in> set (zip genre_columns vec)"
    using assms(2) by simp
  ultimately have "map_of (zip genre_columns vec) (fst p) = Some (snd p)"
    by (rule map_of_is_SomeI)
  then show ?thesis by (simp add: summed_def)
qed

lemma top_of_ranked: "top_of vec = take 5 (ranked vec)"
  by (simp add: top_of_def nlargest_def ranked_def take_map)

lemma mset_ranked:
  assumes "length vec = length genre_columns"
  shows "mset (ranked vec) = mset genre_columns"
proof -
  have "mset (ranked vec) = image_mset fst (mset (zip genre_columns vec))"
    by (simp add: ranked_def)
  also have "\<dots> = mset (map fst (zip genre_columns vec))"
    by simp
  also have "\<dots> = mset genre_columns"
    using assms by simp
  finally show ?thesis .
qed

lemma sorted_ranked:
  assumes "length vec = length genre_columns"
  shows "sorted_wrt (ranks_before vec) (ranked vec)"
proof -
  let ?s = "zip genre_columns vec"
  let ?Q = "\<lambda>a b. index_of genre_columns (fst a) < index_of genre_columns (fst b)"
  let ?f = "\<lambda>p :: string \<times> int. - snd p"
  have "sorted_wrt ?Q ?s"
    unfolding sorted_wrt_iff_nth_less
    using assms by (simp add: index_of_nth distinct_genre_columns)
  then have "sorted_wrt (\<lambda>a b. ?f a < ?f b \<or> (?f a = ?f b \<and> ?Q a b)) (sort_key ?f ?s)"
    by (rule sorted_wrt_sort_key_stable)
  then have "sorted_wrt (\<lambda>a b. ranks_before vec (fst a) (fst b)) (sort_key ?f ?s)"
  proof (rule sorted_wrt_mono_rel [rotated])
    fix a b
    assume "a \<in> set (sort_key ?f ?s)" and "b \<in> set (sort_key ?f ?s)"
      and r: "?f a < ?f b \<or> (?f a = ?f b \<and> ?Q a b)"
    then have "snd a = summed vec (fst a)" and "snd b = summed vec (fst b)"
      using summed_pair [OF assms] by simp_all
    with r show "ranks_before vec (fst a) (fst b)"
      by (auto simp add: ranks_before_def)
  qed
  then show ?thesis
    by (simp add: ranked_def sorted_wrt_map)
qed

lemma top_of_props:
  assumes "length vec = length genre_columns"
  shows "length (top_of vec) = 5"
    and "distinct (top_of vec)"
    and "set (top_of vec) \<subseteq> set genre_columns"
    and "sorted_wrt (ranks_before vec) (top_of vec)"
    and "\<forall>c\<in>set (top_of vec). \<forall>c'\<in>set genre_columns - set (top_of vec). ranks_before vec c c'"
proof -
  have m: "mset (ranked vec) = mset genre_columns"
    by (rule mset_ranked [OF assms])
  have len: "length (ranked vec) = 19"
    using mset_eq_length [OF m] by (simp add: length_genre_columns)
  have d: "distinct (ranked vec)"
    using mset_eq_imp_distinct_iff [OF m] distinct_genre_columns by simp
  have s: "set (ranked vec) = set genre_columns"
    using m by (rule mset_eq_setD)
  have split: "ranked vec = top_of vec @ drop 5 (ranked vec)"
    by (simp add: top_of_ranked)
  have sw: "sorted_wrt (ranks_before vec) (top_of vec @ drop 5 (ranked vec))"
    using sorted_ranked [OF assms] split by simp
  show "length (top_of vec) = 5"
    using len by (simp add: top_of_ranked)
  show "distinct (top_of vec)"
    using d by (simp add: top_of_ranked)
  show "set (top_of vec) \<subseteq> set genre_columns"
    using s set_take_subset [of 5 "ranked vec"] by (simp add: top_of_ranked)
  show "sorted_wrt (ranks_before vec) (top_of vec)"
    using sw by (simp add: sorted_wrt_append)
  have "set genre_columns - set (top_of vec) \<subseteq> set (drop 5 (ranked vec))"
  proof -
    have "set (ranked vec) = set (top_of vec) \<union> set (drop 5 (ranked vec))"
      using arg_cong [OF split, of set] by simp
    then show ?thesis using s by blast
  qed
  then show "\<forall>c\<in>set (top_of vec). \<forall>c'\<in>set genre_columns - set (top_of vec). ranks_before vec c c'"
    using sw unfolding sorted_wrt_append by blast
qed

lemma index_of_unknown: "index_of genre_columns ''unknown'' = 0"
  by (simp add: genre_columns_def)

lemma unknown_column: "''unknown'' \<in> set genre_columns"
  by (simp add: genre_columns_def)

lemma scenario_top:
  "top_of (group_sum scenario_rows ''20-25'' ''engineer'')
     = [''Comedy'', ''unknown'', ''Action'', ''Adventure'', ''Animation'']"
  by code_simp

lemma scenario_out:
  "\<lparr>age_group = ''20-25'', occupation = ''engineer'',
     top_genres = [''Comedy'', ''unknown'', ''Action'', ''Adventure'', ''Animation'']\<rparr>
   \<in> set (top_genres_df scenario_rows)"
proof -
  have "occupations scenario_rows = [''engineer'']"
    by (simp add: scenario_rows_eq occupations_def scenario_users_def)
  then show ?thesis
    by (simp add: top_genres_df_def genre_summary_def age_labels_def scenario_top)
qed

text \<open>
  C3: the top genres of every row of the result are between one and five declared
  columns; each of them ranks before every column left out (a larger sum, or an equal
  sum and a smaller declared index); the list is in non-increasing order of the sums,
  and of two entries with equal sums the one declared first comes first.
\<close>

theorem top_genres_ranked:
  assumes "out \<in> set (top_genres_df rows)"
  shows "1 \<le> length (top_genres out) \<and> length (top_genres out) \<le> 5
       \<and> set (top_genres out) \<subseteq> set genre_columns
       \<and> (\<forall>c\<in>set (top_genres out). \<forall>c'\<in>set genre_columns - set (top_genres out).
             ranks_before (group_sum rows (age_group out) (occupation out)) c c')
       \<and> sorted_wrt (\<lambda>c c'. summed (group_sum rows (age_group out) (occupation out)) c'
                             \<le> summed (group_sum rows (age_group out) (occupation out)) c)
           (top_genres out)
       \<and> sorted_wrt (ranks_before (group_sum rows (age_group out) (occupation out))) (top_genres out)"
proof -
  let ?vec = "group_sum rows (age_group out) (occupation out)"
  have t: "top_genres out = top_of ?vec"
    by (rule top_genres_df_row [OF assms])
  have l: "length ?vec = length genre_columns"
    by (rule length_group_sum)
  note p = top_of_props [OF l]
  have "sorted_wrt (\<lambda>c c'. summed ?vec c' \<le> summed ?vec c) (top_of ?vec)"
    using p(4) by (rule sorted_wrt_mono_rel [rotated]) (auto simp add: ranks_before_def)
  with p show ?thesis
    unfolding t by simp
qed

theorem top_genres_ranked_witness:
  "\<lparr>age_group = ''20-25'', occupation = ''engineer'',
     top_genres = [''Comedy'', ''unknown'', ''Action'', ''Adventure'', ''Animation'']\<rparr>
     \<in> set (top_genres_df scenario_rows)
   \<and> sorted_wrt (ranks_before (group_sum scenario_rows ''20-25'' ''engineer''))
       [''Comedy'', ''unknown'', ''Action'', ''Adventure'', ''Animation'']"
  using top_genres_ranked [OF scenario_out] scenario_out by simp

text \<open>
  C10: the top genres of every row of the result are exactly five different names out of
  the 19 declared columns, and the column unknown is ranked like any other: it is among
  them exactly when fewer than five columns have a larger sum.
\<close>

theorem top_genres_five:
  assumes "out \<in> set (top_genres_df rows)"
  shows "length (top_genres out) = 5 \<and> distinct (top_genres out)
       \<and> set (top_genres out) \<subseteq> set genre_columns
       \<and> length genre_columns = 19 \<and> ''unknown'' \<in> set genre_columns
       \<and> (''unknown'' \<in> set (top_genres out) \<longleftrightarrow>
            card {c \<in> set genre_columns.
                    summed (group_sum rows (age_group out) (occupation out)) ''unknown''
                      < summed (group_sum rows (age_group out) (occupation out)) c} < 5)"
proof -
  let ?vec = "group_sum rows (age_group out) (occupation out)"
  let ?T = "set (top_of ?vec)"
  let ?U = "{c \<in> set genre_columns. summed ?vec ''unknown'' < summed ?vec c}"
  have t: "top_genres out = top_of ?vec"
    by (rule top_genres_df_row [OF assms])
  have l: "length ?vec = length genre_columns"
    by (rule length_group_sum)
  note p = top_of_props [OF l]
  have cardT: "card ?T = 5"
    using p(1) p(2) by (simp add: distinct_card)
  have fin: "finite ?U" by simp
  have a: "5 \<le> card ?U" if "''unknown'' \<notin> ?T"
  proof -
    have "?T \<subseteq> ?U"
    proof
      fix c assume c: "c \<in> ?T"
      then have "ranks_before ?vec c ''unknown''"
        using p(5) that unknown_column by blast
      then have "summed ?vec ''unknown'' < summed ?vec c"
        by (simp add: ranks_before_def index_of_unknown)
      with c p(3) show "c \<in> ?U" by blast
    qed
    then have "card ?T \<le> card ?U"
      using fin by (rule card_mono [rotated])
    with cardT show ?thesis by simp
  qed
  have b: "card ?U < 5" if "''unknown'' \<in> ?T"
  proof -
    have "?U \<subseteq> ?T - {''unknown''}"
    proof
      fix c assume c: "c \<in> ?U"
      have "c \<in> ?T"
      proof (rule ccontr)
        assume "c \<notin> ?T"
        then have "ranks_before ?vec ''unknown'' c"
          using p(5) that c by blast
        then show False using c by (auto simp add: ranks_before_def)
      qed
      moreover have "c \<noteq> ''unknown''" using c by auto
      ultimately show "c \<in> ?T - {''unknown''}" by simp
    qed
    then have "card ?U \<le> card (?T - {''unknown''})"
      by (rule card_mono [rotated]) simp
    also have "\<dots> = 4"
      using that cardT by simp
    finally show ?thesis by simp
  qed
  have "''unknown'' \<in> ?T \<longleftrightarrow> card ?U < 5"
    using a b by fastforce
  with p(1) p(2) p(3) show ?thesis
    unfolding t by (simp add: length_genre_columns unknown_column)
qed

theorem top_genres_five_witness:
  "\<lparr>age_group = ''20-25'', occupation = ''engineer'',
     top_genres = [''Comedy'', ''unknown'', ''Action'', ''Adventure'', ''Animation'']\<rparr>
     \<in> set (top_genres_df scenario_rows)
   \<and> card {c \<in> set genre_columns.
            summed (group_sum scenario_rows ''20-25'' ''engineer'') ''unknown''
              < summed (group_sum scenario_rows ''20-25'' ''engineer'') c} < 5"
  using top_genres_five [OF scenario_out] scenario_out by simp

section \<open>Persisting\<close>

lemma insert_loop_all:
  "insert_loop accepts k df pending =
     (if \<forall>i<length df. accepts (k + i) (insert_values (df ! i))
      then Inr (pending @ map insert_values df) else Inl PersistenceError)"
proof (induction df arbitrary: k pending)
  case Nil
  then show ?case by simp
next
  case (Cons row df)
  have "(\<forall>i<length (row # df). accepts (k + i) (insert_values ((row # df) ! i)))
      \<longleftrightarrow> accepts k (insert_values row) \<and> (\<forall>i<length df. accepts (Suc k + i) (insert_values (df ! i)))"
    by (simp add: All_less_Suc2)
  then show ?case
    by (simp add: Cons.IH)
qed

text \<open>
  C4, amended: the write loop is one transaction, committed once after the last insert.
  When every insert is carried out, all records are stored, in order, after those the
  table held; when an insert raises, the call fails with PersistenceError, the rest of
  the loop is not run and the stored table is as it was before the call: no record
  inserted earlier in the loop is stored.
\<close>

theorem write_loop_one_transaction:
  "save_to_postgres accepts table df =
     (if \<forall>i<length df. accepts i (insert_values (df ! i))
      then (Inr (), Some ((case table of None \<Rightarrow> [] | Some recs \<Rightarrow> recs) @ map insert_values df))
      else (Inl PersistenceError, table))"
proof (cases "\<forall>i<length df. accepts i (insert_values (df ! i))")
  case True
  then have "insert_loop accepts 0 df created = Inr (created @ map insert_values df)" for created
    by (simp add: insert_loop_all)
  with True show ?thesis
    by (simp add: save_to_postgres_def)
next
  case False
  then have "insert_loop accepts 0 df created = Inl PersistenceError" for created
    by (simp add: insert_loop_all)
  with False show ?thesis
    by (simp add: save_to_postgres_def)
qed

lemma length_scenario_result: "length (top_genres_df scenario_rows) = 5"
proof -
  have "occupations scenario_rows = [''engineer'']"
    by (simp add: scenario_rows_eq occupations_def scenario_users_def)
  then have "length (map result_key (top_genres_df scenario_rows)) = 5"
    by (simp add: keys_top_genres_df age_labels_def)
  then show ?thesis by simp
qed

text \<open>
  C4 as stated fails when the third insert raises: the first insert was carried out, and
  the stored table holds no record after the call.
\<close>

theorem write_loop_one_transaction_counterexample:
  "top_genres_df scenario_rows \<noteq> []
   \<and> third_insert_fails 0 (insert_values (top_genres_df scenario_rows ! 0))
   \<and> save_to_postgres third_insert_fails (Some []) (top_genres_df scenario_rows)
       = (Inl PersistenceError, Some [])"
proof -
  have "\<not> (\<forall>i<length (top_genres_df scenario_rows).
            third_insert_fails (0 + i) (insert_values (top_genres_df scenario_rows ! i)))"
    by (auto simp add: length_scenario_result third_insert_fails_def intro: exI [of _ 2])
  then have "insert_loop third_insert_fails 0 (top_genres_df scenario_rows) [] = Inl PersistenceError"
    by (simp only: insert_loop_all if_False)
  moreover have "top_genres_df scenario_rows \<noteq> []"
    using length_scenario_result by auto
  ultimately show ?thesis
    by (simp add: save_to_postgres_def third_insert_fails_def)
qed

theorem write_loop_one_transaction_witness:
  "length (top_genres_df scenario_rows) = 5
   \<and> always_accepts 4 (insert_values (top_genres_df scenario_rows ! 4))
   \<and> save_to_postgres always_accepts None (top_genres_df scenario_rows)
       = (Inr (), Some (map insert_values (top_genres_df scenario_rows)))"
  using write_loop_one_transaction [of always_accepts None "top_genres_df scenario_rows"]
  by (simp add: always_accepts_def length_scenario_result)

section \<open>Rows of negative age\<close>

lemma negative_age_group:
  assumes "u_age (of_user row) = Some a" and "a < 0"
  shows "age_group_of row = None"
  using assms by (simp add: age_group_of_def cut_age_cases)

lemma group_rows_drop:
  assumes "age_group_of row = None"
  shows "group_rows (xs @ row # ys) b occ = group_rows (xs @ ys) b occ"
  using assms by (simp add: group_rows_def)

lemma occupations_insert:
  "set (occupations (xs @ row # ys))
     = set (occupations (xs @ ys)) \<union> {occ. u_occupation (of_user row) = Some occ}"
  by (auto simp add: set_occupations)

lemma saved_all:
  "save_to_postgres always_accepts None df = (Inr (), Some (map insert_values df))"
  by (simp add: save_to_postgres_def insert_loop_all always_accepts_def)

lemma length_top_genres_df: "length (top_genres_df rows) = 5 * card (set (occupations rows))"
proof -
  have "length (map result_key (top_genres_df rows)) = 5 * length (occupations rows)"
    by (simp only: keys_top_genres_df length_product) (simp add: age_labels_def)
  then show ?thesis
    by (simp add: distinct_card [OF distinct_occupations])
qed

lemma scenario_occupations: "set (occupations scenario_rows) = {''engineer''}"
  by (auto simp add: set_occupations scenario_rows_eq scenario_users_def)

lemma negative_occupations:
  "set (occupations (scenario_rows @ [negative_age_row])) = {''engineer'', ''artist''}"
  by (auto simp add: set_occupations scenario_rows_eq scenario_users_def negative_age_row_def)

text \<open>
  C9, amended: a joined row of negative age gets no age group; it is a member of no
  group, and every group has the sums it has without the row; every row of the result
  carries one of the five labels, and its top genres are those computed without the row.
  The row is not without effect on the output: its occupation indexes the result, which
  has a row for each of the five labels with that occupation besides the rows it has
  without the row.
\<close>

theorem negative_age_row_effect:
  assumes "u_age (of_user row) = Some a" and "a < 0"
  shows "age_group_of row = None
       \<and> (\<forall>b occ. row \<notin> set (group_rows (xs @ row # ys) b occ)
                  \<and> group_sum (xs @ row # ys) b occ = group_sum (xs @ ys) b occ)
       \<and> (\<forall>out\<in>set (top_genres_df (xs @ row # ys)).
             age_group out \<in> set age_labels
             \<and> top_genres out = top_of (group_sum (xs @ ys) (age_group out) (occupation out)))
       \<and> set (map result_key (top_genres_df (xs @ row # ys)))
           = set (map result_key (top_genres_df (xs @ ys)))
             \<union> set age_labels \<times> {occ. u_occupation (of_user row) = Some occ}"
proof -
  have n: "age_group_of row = None"
    by (rule negative_age_group [OF assms])
  have m: "row \<notin> set (group_rows (xs @ row # ys) b occ)" for b occ
    using n by (simp add: group_rows_def)
  have s: "group_sum (xs @ row # ys) b occ = group_sum (xs @ ys) b occ" for b occ
    by (simp add: group_sum_def group_rows_drop [OF n])
  have o: "age_group out \<in> set age_labels
      \<and> top_genres out = top_of (group_sum (xs @ ys) (age_group out) (occupation out))"
    if "out \<in> set (top_genres_df (xs @ row # ys))" for out
  proof -
    have "result_key out \<in> set (map result_key (top_genres_df (xs @ row # ys)))"
      using that by simp
    then have "age_group out \<in> set age_labels"
      by (simp only: keys_top_genres_df set_product) (simp add: result_key_def)
    with that show ?thesis
      by (simp add: top_genres_df_row s)
  qed
  have k: "set (map result_key (top_genres_df (xs @ row # ys)))
           = set (map result_key (top_genres_df (xs @ ys)))
             \<union> set age_labels \<times> {occ. u_occupation (of_user row) = Some occ}"
    by (simp only: keys_top_genres_df set_product occupations_insert) blast
  from n m s o k show ?thesis by blast
qed

text \<open>
  C9 as stated fails for the scenario with a row of age -3 and occupation artist added:
  the result, and with it the stored table, has five more rows, those of the occupation
  of that row, which occurs among the keys only through it.
\<close>

theorem negative_age_row_effect_counterexample:
  "(''45+'', ''artist'') \<in> set (map result_key (top_genres_df (scenario_rows @ [negative_age_row])))
   \<and> (''45+'', ''artist'') \<notin> set (map result_key (top_genres_df scenario_rows))
   \<and> length (top_genres_df scenario_rows) = 5
   \<and> length (top_genres_df (scenario_rows @ [negative_age_row])) = 10
   \<and> save_to_postgres always_accepts None (top_genres_df (scenario_rows @ [negative_age_row]))
       \<noteq> save_to_postgres always_accepts None (top_genres_df scenario_rows)"
proof -
  have a: "(''45+'', ''artist'')
      \<in> set (map result_key (top_genres_df (scenario_rows @ [negative_age_row])))"
    by (simp only: keys_top_genres_df set_product negative_occupations) (simp add: set_age_labels)
  have b: "(''45+'', ''artist'') \<notin> set (map result_key (top_genres_df scenario_rows))"
    by (simp only: keys_top_genres_df set_product scenario_occupations) simp
  have c: "length (top_genres_df scenario_rows) = 5"
    by (simp add: length_top_genres_df scenario_occupations)
  have d: "length (top_genres_df (scenario_rows @ [negative_age_row])) = 10"
    by (simp add: length_top_genres_df negative_occupations)
  have "map insert_values (top_genres_df (scenario_rows @ [negative_age_row]))
      \<noteq> map insert_values (top_genres_df scenario_rows)"
  proof
    assume "map insert_values (top_genres_df (scenario_rows @ [negative_age_row]))
      = map insert_values (top_genres_df scenario_rows)"
    then have "length (top_genres_df (scenario_rows @ [negative_age_row]))
      = length (top_genres_df scenario_rows)"
      by (rule map_eq_imp_length_eq)
    with c d show False by simp
  qed
  then have e: "save_to_postgres always_accepts None (top_genres_df (scenario_rows @ [negative_age_row]))
       \<noteq> save_to_postgres always_accepts None (top_genres_df scenario_rows)"
    unfolding saved_all by simp
  from a b c d e show ?thesis by blast
qed

theorem negative_age_row_effect_witness:
  "u_age (of_user negative_age_row) = Some (- 3) \<and> (- 3 :: int) < 0
   \<and> age_group_of negative_age_row = None
   \<and> group_sum (scenario_rows @ negative_age_row # []) ''20-25'' ''engineer''
       = group_sum (scenario_rows @ []) ''20-25'' ''engineer''"
proof -
  have h: "u_age (of_user negative_age_row) = Some (- 3)"
    by (simp add: negative_age_row_def)
  have n: "(- 3 :: int) < 0" by simp
  from negative_age_row_effect [OF h n, of scenario_rows "[]"] h n show ?thesis by blast
qed

section \<open>Loading\<close>

lemma read_csv_error: "read_csv n src = Inl e \<Longrightarrow> e = DataSourceError"
  by (auto simp add: read_csv_def Let_def split: option.splits list.splits if_splits)

lemma read_csv_unreadable: "read_csv n None = Inl DataSourceError"
  by (simp add: read_csv_def)

lemma read_csv_short:
  assumes "\<forall>l\<in>set lines. length l \<le> n"
  shows "read_csv n (Some lines) = Inr (map (pad n) (filter (\<lambda>l. l \<noteq> []) lines))"
proof (cases "filter (\<lambda>l. l \<noteq> []) lines")
  case Nil
  then show ?thesis by (simp add: read_csv_def)
next
  case (Cons l ls)
  have "set (l # ls) \<subseteq> set lines"
    using Cons [symmetric] by auto 
  then have b: "\<forall>l'\<in>set (l # ls). length l' \<le> n"
    using assms by blast
  then have "max (length l) n = n" by simp
  moreover have "\<not> list_ex (\<lambda>l'. n < length l') ls"
    using b by (auto simp add: list_ex_iff)
  ultimately show ?thesis
    using Cons by (simp add: read_csv_def)
qed

text \<open>
  C8, amended: when one of the three sources cannot be read the run fails with
  DataSourceError and nothing is aggregated or stored. A line with fewer fields than the
  schema is no error: when no line has more fields than the schema, the source is loaded
  with the missing trailing fields of every line empty.
\<close>

theorem loader_failure:
  "(ratings_data = None \<or> movies_data = None \<or> user_data = None
      \<longrightarrow> execute ratings_data movies_data user_data accepts table = (Inl DataSourceError, table))
   \<and> ((\<forall>l\<in>set lines. length l \<le> n)
      \<longrightarrow> read_csv n (Some lines) = Inr (map (pad n) (filter (\<lambda>l. l \<noteq> []) lines)))"
proof -
  have "execute ratings_data movies_data user_data accepts table = (Inl DataSourceError, table)"
    if "ratings_data = None \<or> movies_data = None \<or> user_data = None"
    using that
    by (auto simp add: execute_def read_csv_unreadable split: sum.splits dest: read_csv_error)
  then show ?thesis
    using read_csv_short by blast
qed

text \<open>
  C8 as stated fails for an interaction line of three fields: it is loaded with an empty
  timestamp, and the run ends without an error.
\<close>

theorem loader_failure_counterexample:
  "read_csv (length ratings_names) short_ratings_data
     = Inr [[Some (Num 1), Some (Num 1), Some (Num 5), None]]
   \<and> fst (execute short_ratings_data scenario_movies_data scenario_user_data always_accepts None)
     = Inr ()"
proof -
  have a: "read_csv (length ratings_names) short_ratings_data
     = Inr [[Some (Num 1), Some (Num 1), Some (Num 5), None]]"
    by (simp add: read_csv_def ratings_names_def short_ratings_data_def pad_def)
  have b: "fst (execute short_ratings_data scenario_movies_data scenario_user_data always_accepts None)
     = Inr ()"
    by code_simp
  from a b show ?thesis by simp
qed

theorem loader_failure_witness:
  "execute None scenario_movies_data scenario_user_data always_accepts None
     = (Inl DataSourceError, None)
   \<and> length [Some (Num 1), Some (Num 1), Some (Num 5)] \<le> 4
   \<and> read_csv 4 (Some [[Some (Num 1), Some (Num 1), Some (Num 5)]])
     = Inr [[Some (Num 1), Some (Num 1), Some (Num 5), None]]"
  using loader_failure [of None scenario_movies_data scenario_user_data always_accepts None
      "[[Some (Num 1), Some (Num 1), Some (Num 5)]]" 4]
  by (simp add: pad_def)

end
